theory Spec2Isabelle
  imports Complex_Main "HOL-Library.Product_Lexorder"
begin

section \<open>Conventions of the embedding\<close>

text \<open>
  The calculation engine of \<^verbatim>\<open>cable_calc_gui.py\<close> (class \<^verbatim>\<open>CableCalcApp\<close>) is embedded
  function by function. The conventions are:
  \<^item> a Python \<^verbatim>\<open>float\<close> is a \<^typ>\<open>real\<close> and a Python \<^verbatim>\<open>int\<close> is an \<^typ>\<open>int\<close>: arithmetic
    is exact, so rounding, infinities and NaN are outside the model; the one float operation
    of the engine that raises on overflow, the power \<^verbatim>\<open>x ** 2\<close>, is \<open>py_pow2\<close> (an
    \<^verbatim>\<open>OverflowError\<close> when the square rounds to infinity);
  \<^item> a text is a \<^typ>\<open>string\<close> of characters with code points below 256;
  \<^item> a Python \<^verbatim>\<open>dict\<close> is an association list read with \<open>map_of\<close> (the first binding of a
    key is the binding of the dictionary); the empty dictionary is the empty list;
  \<^item> \<^verbatim>\<open>d.get(k)\<close> is \<open>dict_get\<close> (an option), \<^verbatim>\<open>d[k]\<close> is \<open>dict_index\<close> (a \<^verbatim>\<open>KeyError\<close> when the
    key is missing), and a division by a variable is \<open>py_div\<close> (a \<^verbatim>\<open>ZeroDivisionError\<close> when
    the divisor is zero); a raised exception is the left summand of a sum type;
  \<^item> the text of a numeric form field is represented by the outcome of Python's \<^verbatim>\<open>float()\<close>
    on it (type \<open>field\<close>): the parser itself is not modelled.
\<close>

datatype error = ZeroDivisionError | ValueError | KeyError | OverflowError | IndexError

type_synonym ('k, 'v) dict = "('k \<times> 'v) list"

definition dict_get :: "('k, 'v) dict \<Rightarrow> 'k \<Rightarrow> 'v option" where
  "dict_get d k = map_of d k"

definition dict_index :: "('k, 'v) dict \<Rightarrow> 'k \<Rightarrow> error + 'v" where
  "dict_index d k = (case map_of d k of None \<Rightarrow> Inl KeyError | Some v \<Rightarrow> Inr v)"

definition dict_keys :: "('k, 'v) dict \<Rightarrow> 'k list" where
  "dict_keys d = remdups (map fst d)"

text \<open>\<^verbatim>\<open>sorted(d)\<close>: the keys of a dictionary in ascending order.\<close>

definition sorted_keys :: "('k::linorder, 'v) dict \<Rightarrow> 'k list" where
  "sorted_keys d = sort (dict_keys d)"

definition py_div :: "real \<Rightarrow> real \<Rightarrow> error + real" where
  "py_div a b = (if b = 0 then Inl ZeroDivisionError else Inr (a / b))"



definition bind_err :: "error + 'a \<Rightarrow> ('a \<Rightarrow> error + 'b) \<Rightarrow> error + 'b" where
  "bind_err m f = (case m of Inl e \<Rightarrow> Inl e | Inr x \<Rightarrow> f x)"

text \<open>\<^verbatim>\<open>math.isclose(a, b, rel_tol=r, abs_tol=t)\<close> on finite values.\<close>

definition isclose :: "real \<Rightarrow> real \<Rightarrow> real \<Rightarrow> real \<Rightarrow> bool" where
  "isclose a b rel_tol abs_tol =
     (a = b \<or> \<bar>a - b\<bar> \<le> max (rel_tol * max \<bar>a\<bar> \<bar>b\<bar>) abs_tol)"

text \<open>
  \<^verbatim>\<open>str.strip()\<close> and \<^verbatim>\<open>str.replace(",", ".")\<close>. The characters below 256 that
  \<^verbatim>\<open>str.isspace\<close> accepts are the space, U+0009 to U+000D, U+001C to U+001F, U+0085 and
  U+00A0.
\<close>

definition is_space :: "char \<Rightarrow> bool" where
  "is_space c = (c \<in> set [CHR '' '', CHR 0x09, CHR 0x0A, CHR 0x0B, CHR 0x0C, CHR 0x0D,
                           CHR 0x1C, CHR 0x1D, CHR 0x1E, CHR 0x1F, CHR 0x85, CHR 0xA0])"

definition strip :: "string \<Rightarrow> string" where
  "strip s = rev (dropWhile is_space (rev (dropWhile is_space s)))"

definition replace_comma :: "string \<Rightarrow> string" where
  "replace_comma s = map (\<lambda>c. if c = CHR '','' then CHR ''.'' else c) s"

section \<open>Reference tables\<close>

text \<open>
  The area buckets of the reactance table (keys \<^verbatim>\<open>"\<le>95"\<close>, \<^verbatim>\<open>"\<le>240"\<close>, \<^verbatim>\<open>">240"\<close> in the
  source).
\<close>

datatype bucket = Le95 | Le240 | Gt240

text \<open>
  \<^verbatim>\<open>REACTANCE_DATA\<close>: a dictionary with the optional keys \<^verbatim>\<open>"buckets"\<close>, \<^verbatim>\<open>"method_defaults"\<close>
  and \<^verbatim>\<open>"default"\<close>; a field is \<open>None\<close> when its key is missing.
\<close>

record reactance_data =
  rd_buckets :: "(string, (bucket, real) dict) dict option"
  rd_method_defaults :: "(string, real) dict option"
  rd_default :: "real option"


record insulation_meta =
  meta_key :: string
  meta_theta :: real

text \<open>
  The class attributes filled by \<^verbatim>\<open>_load_external_resources\<close>. An entry of
  \<^verbatim>\<open>STANDARD_BREAKER_RATINGS\<close> is its stripped text together with the outcome of
  \<^verbatim>\<open>float(item.replace(",", "."))\<close> on it (\<open>None\<close> for an empty or unparsable item).
\<close>

record tables =
  AMPACITY_BASE :: "(string, (real, real) dict) dict"
  AMPACITY_INSULATION_FACTORS :: "(string, (string, (string, real) dict) dict) dict"
  AMPACITY_LOADED_FACTORS :: "(string, (int, real) dict) dict"
  GROUPING_FACTORS :: "(int, real) dict"
  KT_V_TABLE :: "(string, (int, real) dict) dict"
  KT_Z_TABLE :: "(string, (int, real) dict) dict"
  RESISTIVITY_20 :: "(string, real) dict"
  TEMP_COEFF :: "(string, real) dict"
  REACTANCE_DATA :: reactance_data
  STANDARD_SECTIONS :: "real list"
  STANDARD_BREAKER_RATINGS :: "(string \<times> real option) list"
  DROP_LIMIT_KEYS :: "(string, real) dict"
  INSULATION_META :: "(string, insulation_meta) dict"

section \<open>Line impedance and voltage drop\<close>






section \<open>Ampacity, grouping factor and temperature factor\<close>

text \<open>
  The interpolation loop of \<^verbatim>\<open>_lookup_ampacity\<close> (lines 973-987) over
  \<^verbatim>\<open>zip(standard_sections, standard_sections[1:])\<close>; running off the end of the list is the
  \<^verbatim>\<open>else\<close> branch of the \<^verbatim>\<open>for\<close>, which returns \<^verbatim>\<open>None\<close>.
\<close>

fun interpolate_area :: "(real, real) dict \<Rightarrow> real \<Rightarrow> (real \<times> real) list \<Rightarrow> error + real option" where
  "interpolate_area base_table area [] = Inr None"
| "interpolate_area base_table area ((lower, upper) # rest) =
     (if isclose area lower (1 / 10 ^ 6) (1 / 10 ^ 3)
      then bind_err (dict_index base_table lower) (\<lambda>v. Inr (Some v))
      else if lower \<le> area \<and> area \<le> upper
      then bind_err (dict_index base_table lower) (\<lambda>lower_val.
           bind_err (dict_index base_table upper) (\<lambda>upper_val.
             if isclose upper lower (1 / 10 ^ 9) 0 then Inr (Some lower_val)
             else bind_err (py_div (area - lower) (upper - lower)) (\<lambda>ratio.
                    Inr (Some (lower_val + ratio * (upper_val - lower_val))))))
      else interpolate_area base_table area rest)"

text \<open>The base value of \<^verbatim>\<open>_lookup_ampacity\<close> (lines 964-987), before the two multipliers.\<close>

definition ampacity_base_value :: "(real, real) dict \<Rightarrow> real \<Rightarrow> error + real option" where
  "ampacity_base_value base_table area =
     (let standard_sections = sorted_keys base_table in
      if standard_sections = [] then Inr None
      else if area \<le> hd standard_sections
      then bind_err (dict_index base_table (hd standard_sections)) (\<lambda>v. Inr (Some v))
      else if area \<ge> last standard_sections
      then bind_err (dict_index base_table (last standard_sections)) (\<lambda>v. Inr (Some v))
      else interpolate_area base_table area (zip standard_sections (tl standard_sections)))"


text \<open>
  \<^verbatim>\<open>_lookup_group_factor\<close> (lines 991-997). \<^verbatim>\<open>max\<close> of an empty dictionary raises
  \<^verbatim>\<open>ValueError\<close>.
\<close>

definition lookup_group_factor :: "tables \<Rightarrow> int \<Rightarrow> error + real" where
  "lookup_group_factor T circuits =
     (if circuits \<le> 1 then Inr 1
      else if dict_keys (GROUPING_FACTORS T) = [] then Inl ValueError
      else
        (let max_defined = Max (set (dict_keys (GROUPING_FACTORS T))) in
         if circuits \<ge> max_defined then dict_index (GROUPING_FACTORS T) max_defined
         else bind_err (dict_index (GROUPING_FACTORS T) max_defined) (\<lambda>dflt.
                case dict_get (GROUPING_FACTORS T) circuits of
                  None \<Rightarrow> Inr dflt
                | Some v \<Rightarrow> Inr v)))"

text \<open>
  The effective circuit count formed by the callers (lines 1434 and 1871), and the grouping
  factor of a circuit count and a parallel-cable count.
\<close>

definition effective_circuits :: "int \<Rightarrow> int \<Rightarrow> int" where
  "effective_circuits circuits_count n_parallel =
     (if n_parallel > 1 then max 1 (circuits_count + n_parallel - 1) else circuits_count)"

definition group_factor :: "tables \<Rightarrow> int \<Rightarrow> int \<Rightarrow> error + real" where
  "group_factor T circuits_count n_parallel =
     lookup_group_factor T (effective_circuits circuits_count n_parallel)"

text \<open>
  \<^verbatim>\<open>temperature in table\<close> followed by \<^verbatim>\<open>table[temperature]\<close>, for a float against integer keys:
  the float hashes and compares like the integer it equals, if any.
\<close>

definition float_key :: "real \<Rightarrow> int option" where
  "float_key t = (if t = of_int \<lfloor>t\<rfloor> then Some \<lfloor>t\<rfloor> else None)"

text \<open>The interpolation loop of \<^verbatim>\<open>_lookup_temperature_factor\<close> (lines 1016-1024).\<close>

fun interpolate_temperature ::
  "(int, real) dict \<Rightarrow> real \<Rightarrow> (int \<times> int) list \<Rightarrow> error + real option" where
  "interpolate_temperature table temperature [] = Inr None"
| "interpolate_temperature table temperature ((lower, upper) # rest) =
     (if of_int lower \<le> temperature \<and> temperature \<le> of_int upper
      then bind_err (dict_index table lower) (\<lambda>lower_val.
           bind_err (dict_index table upper) (\<lambda>upper_val.
             if isclose (of_int upper) (of_int lower) (1 / 10 ^ 9) 0 then Inr (Some lower_val)
             else bind_err (py_div (temperature - of_int lower) (of_int upper - of_int lower))
                    (\<lambda>ratio. Inr (Some (lower_val + ratio * (upper_val - lower_val))))))
      else interpolate_temperature table temperature rest)"

text \<open>\<^verbatim>\<open>_lookup_temperature_factor\<close> (lines 999-1024).\<close>

definition selected_kt_table :: "tables \<Rightarrow> string \<Rightarrow> (string, (int, real) dict) dict" where
  "selected_kt_table T medium = (if medium = ''soil'' then KT_Z_TABLE T else KT_V_TABLE T)"

definition lookup_temperature_factor ::
  "tables \<Rightarrow> string \<Rightarrow> string \<Rightarrow> real \<Rightarrow> error + real option" where
  "lookup_temperature_factor T insulation_key medium temperature =
     (case dict_get (selected_kt_table T medium) insulation_key of
        None \<Rightarrow> Inr None
      | Some table \<Rightarrow>
          if table = [] then Inr None
          else
            (let points = sorted_keys table in
             if points = [] then Inr None
             else if temperature < of_int (hd points) \<or> temperature > of_int (last points)
             then Inr None
             else
               (case (case float_key temperature of
                        None \<Rightarrow> None | Some k \<Rightarrow> dict_get table k) of
                  Some v \<Rightarrow> Inr (Some v)
                | None \<Rightarrow> interpolate_temperature table temperature (zip points (tl points)))))"

section \<open>Protection verdict\<close>

text \<open>The outcome of \<^verbatim>\<open>float()\<close> on the text of a form field, and \<^verbatim>\<open>_try_parse_float\<close>.\<close>

datatype field = Empty | Invalid | Num real

definition try_parse_float :: "field \<Rightarrow> real option" where
  "try_parse_float v = (case v of Num x \<Rightarrow> Some x | _ \<Rightarrow> None)"

text \<open>The status texts \<^verbatim>\<open>"OK"\<close>, \<^verbatim>\<open>"NE"\<close>, \<^verbatim>\<open>"N/A"\<close> and the dash.\<close>

datatype status = OK | NE | N_A | Dash

text \<open>
  The protection block of \<^verbatim>\<open>_update_intermediate_results\<close> (lines 1625-1661), as a function of
  the two form fields and of the values computed before it.
\<close>

definition protection_status ::
  "field \<Rightarrow> field \<Rightarrow> real option \<Rightarrow> real option \<Rightarrow> int \<Rightarrow> status" where
  "protection_status in_text k_text iz_one icalc_total n_parallel =
     (let in_value = (case try_parse_float in_text of
                        None \<Rightarrow> None | Some v \<Rightarrow> if v \<le> 0 then None else Some v);
          k_value = (case try_parse_float k_text of
                       None \<Rightarrow> None | Some v \<Rightarrow> if v \<le> 0 then None else Some v);
          i2_value = (case (in_value, k_value) of
                        (Some i, Some k) \<Rightarrow> Some (i * k) | _ \<Rightarrow> None)
      in case (iz_one, icalc_total, in_value, i2_value) of
           (Some iz, Some ic, Some i, Some i2) \<Rightarrow>
             (let iz_total = iz * of_int n_parallel;
                  within_nominal = (ic \<le> i \<and> i \<le> iz_total);
                  overload_check = (i2 \<le> 145 / 100 * iz_total)
              in if within_nominal \<and> overload_check then OK else NE)
         | _ \<Rightarrow> if in_value = None \<or> i2_value = None then Dash else N_A)"

section \<open>Chain accumulator\<close>

text \<open>
  A row of \<^verbatim>\<open>_table_data\<close>: the texts under the keys \<^verbatim>\<open>"Strujni krug"\<close>, \<^verbatim>\<open>"OD"\<close>, \<^verbatim>\<open>"DO"\<close>,
  \<^verbatim>\<open>"L"\<close>, \<^verbatim>\<open>"Presek"\<close> (the empty text for a missing key), and the outcome of \<^verbatim>\<open>float()\<close> on
  the stored drop (\<open>None\<close> when it raises).
\<close>

record row =
  r_circuit :: string
  r_od :: string
  r_do :: string
  r_l :: string
  r_presek :: string
  r_drop :: "real option"

text \<open>The test of the inner \<^verbatim>\<open>for\<close> loop (lines 1792-1804): the first such row is \<^verbatim>\<open>found\<close>.\<close>

definition row_found ::
  "string \<Rightarrow> string \<Rightarrow> string \<Rightarrow> string \<Rightarrow> string \<Rightarrow> string \<Rightarrow> row \<Rightarrow> bool" where
  "row_found circuit form_od form_do form_l_norm form_area_norm current r =
     (strip (r_circuit r) = circuit \<and> strip (r_do r) = current \<and>
      \<not> (form_od = strip (r_od r) \<and> form_do = strip (r_do r) \<and>
         form_l_norm = strip (replace_comma (r_l r)) \<and>
         form_area_norm = strip (replace_comma (r_presek r))))"

lemma find_row_found:
  "List.find (row_found c fo fd fl fa cur) rows = Some r \<Longrightarrow> r \<in> set rows \<and> strip (r_do r) = cur"
  by (auto simp: find_Some_iff row_found_def)

text \<open>The \<^verbatim>\<open>while\<close> loop (lines 1789-1811).\<close>

function chain_walk ::
  "row list \<Rightarrow> string \<Rightarrow> string \<Rightarrow> string \<Rightarrow> string \<Rightarrow> string \<Rightarrow> string set \<Rightarrow> string \<Rightarrow> real
     \<Rightarrow> real" where
  "chain_walk rows circuit form_od form_do form_l_norm form_area_norm visited current total_sum =
     (if current \<noteq> [] \<and> current \<notin> visited then
        (case List.find (row_found circuit form_od form_do form_l_norm form_area_norm current) rows of
           None \<Rightarrow> total_sum
         | Some found \<Rightarrow>
             chain_walk rows circuit form_od form_do form_l_norm form_area_norm
               (insert current visited) (strip (r_od found))
               (total_sum + (case r_drop found of None \<Rightarrow> 0 | Some d \<Rightarrow> d)))
      else total_sum)"
  by pat_completeness auto
termination
proof (relation "measure (\<lambda>(rows, c, fo, fd, fl, fa, visited, cur, total_sum).
                   card ((\<lambda>r. strip (r_do r)) ` set rows - visited))")
  show "wf (measure (\<lambda>(rows, c, fo, fd, fl, fa, visited, cur, total_sum).
                   card ((\<lambda>r. strip (r_do r)) ` set rows - visited)))"
    by simp
next
  fix rows :: "row list" and circuit form_od form_do form_l_norm form_area_norm :: string
    and visited :: "string set" and current :: string and total_sum :: real and found :: row
  assume nv: "current \<noteq> [] \<and> current \<notin> visited"
    and f: "List.find (row_found circuit form_od form_do form_l_norm form_area_norm current) rows
              = Some found"
  let ?S = "(\<lambda>r. strip (r_do r)) ` set rows"
  have "current \<in> ?S" using find_row_found[OF f] by auto
  then have "?S - insert current visited \<subset> ?S - visited" using nv by auto
  then have "card (?S - insert current visited) < card (?S - visited)"
    by (intro psubset_card_mono) simp_all
  then show "((rows, circuit, form_od, form_do, form_l_norm, form_area_norm, insert current visited,
               strip (r_od found), total_sum + (case r_drop found of None \<Rightarrow> 0 | Some d \<Rightarrow> d)),
              (rows, circuit, form_od, form_do, form_l_norm, form_area_norm, visited, current, total_sum))
             \<in> measure (\<lambda>(rows, c, fo, fd, fl, fa, visited, cur, total_sum).
                   card ((\<lambda>r. strip (r_do r)) ` set rows - visited))"
    by simp
qed

text \<open>
  \<^verbatim>\<open>_sum_drop_chain_ending_at\<close> (lines 1773-1812); \<open>form_do_text\<close>, \<open>form_l_text\<close> and
  \<open>form_area_text\<close> are the texts of the form fields the function reads.
\<close>

definition sum_drop_chain_ending_at ::
  "row list \<Rightarrow> string \<Rightarrow> string \<Rightarrow> string \<Rightarrow> string \<Rightarrow> string \<Rightarrow> real" where
  "sum_drop_chain_ending_at rows form_do_text form_l_text form_area_text circuit form_od =
     (if circuit = [] \<or> form_od = [] then 0
      else chain_walk rows circuit form_od (strip form_do_text)
             (replace_comma (strip form_l_text)) (replace_comma (strip form_area_text))
             {} (strip form_od) 0)"

section \<open>Optimal-parameter search\<close>


















section \<open>Refresh of the derived values\<close>

text \<open>
  \<^verbatim>\<open>_update_intermediate_results\<close> (lines 1361-1759) is the first statement of
  \<^verbatim>\<open>select_optimal_parameters\<close> and, after a successful search, its last. It is modelled with
  the values that decide whether it returns: the grouping factor, the temperature factor, the
  design current, the ampacity, the drop and the two verdicts that make it call
  \<^verbatim>\<open>_recommend\<close>. Left out are the statements that only write display fields from values
  computed without a raise (the alert marks of the fields, the cumulative drop of the chain, the
  protection and compatibility verdicts, the saved last result), and the two warnings that the
  refresh may show (a temperature outside the table of factors, 230 V with three loaded cores).
  The two verdicts are the displayed texts, which line 1728 reads back: the dash when no verdict
  is computed. The refresh runs: the panel of derived values, built with the form, holds all
  its fields, and no project or row is being loaded when the search is started. Lines
  1384-1386 do nothing: \<^verbatim>\<open>_medium_selected_key\<close> is a key of \<^verbatim>\<open>TEMPERATURE_MEDIA\<close> in every
  constructed application (line 674 raises \<^verbatim>\<open>KeyError\<close> during construction otherwise, the
  table is assigned only before that line, and every later assignment of the key takes a key of
  the table).
\<close>












section \<open>Compliance of a pair\<close>

text \<open>
  The notions in which the result of the search is characterised. They are not part of the
  program: they restate, for one standard area and one breaker rating, what the loop computes
  and tests.
\<close>





section \<open>Sample data\<close>

text \<open>A small set of reference tables, a form and a segment table, for concrete instances.\<close>

definition demo_tables :: tables where
  "demo_tables =
     \<lparr> AMPACITY_BASE = [(''C'', [(2, 10), (4, 20)])],
       AMPACITY_INSULATION_FACTORS = [(''PVC'', [(''Cu'', [(''C'', 1)])])],
       AMPACITY_LOADED_FACTORS = [(''C'', [(2, 1), (3, 1)])],
       GROUPING_FACTORS = [(1, 9 / 10), (2, 8 / 10), (5, 6 / 10)],
       KT_V_TABLE = [(''PVC'', [(10, 122 / 100), (30, 1), (50, 71 / 100)])],
       KT_Z_TABLE = [],
       RESISTIVITY_20 = [(''Cu'', 1 / 50)],
       TEMP_COEFF = [(''Cu'', 0)],
       REACTANCE_DATA = \<lparr> rd_buckets = None, rd_method_defaults = None, rd_default = None \<rparr>,
       STANDARD_SECTIONS = [2, 4],
       STANDARD_BREAKER_RATINGS = [(''6'', Some 6), (''10'', Some 10), (''16'', Some 16)],
       DROP_LIMIT_KEYS = [(''A'', 5)],
       INSULATION_META = [(''PVC'', \<lparr> meta_key = ''PVC'', meta_theta = 70 \<rparr>)] \<rparr>"

text \<open>Three segments A-B, B-C, C-D of the circuit K1, each with a stored drop of 1.0 %.\<close>

definition demo_rows :: "row list" where
  "demo_rows =
     [\<lparr> r_circuit = ''K1'', r_od = ''A'', r_do = ''B'', r_l = ''10,00'', r_presek = ''2,00'',
        r_drop = Some 1 \<rparr>,
      \<lparr> r_circuit = ''K1'', r_od = ''B'', r_do = ''C'', r_l = ''10,00'', r_presek = ''2,00'',
        r_drop = Some 1 \<rparr>,
      \<lparr> r_circuit = ''K1'', r_od = ''C'', r_do = ''D'', r_l = ''10,00'', r_presek = ''2,00'',
        r_drop = Some 1 \<rparr>]"



section \<open>Dictionaries and the line impedance\<close>

lemma dict_index_key:
  "k \<in> set (dict_keys d) \<Longrightarrow> \<exists>v. dict_index d k = Inr v \<and> dict_get d k = Some v"
  unfolding dict_keys_def dict_index_def dict_get_def
  by (cases "map_of d k") (auto simp: map_of_eq_None_iff)

lemma set_dict_keys: "set (dict_keys d) = fst ` set d"
  by (simp add: dict_keys_def)

lemma dict_keys_Nil: "dict_keys d = [] \<longleftrightarrow> d = []"
proof -
  have "dict_keys d = [] \<longleftrightarrow> set (dict_keys d) = {}" by simp
  also have "\<dots> \<longleftrightarrow> d = []" unfolding set_dict_keys by simp
  finally show ?thesis .
qed








section \<open>Properties of the voltage drop\<close>







section \<open>Properties of the protection verdict\<close>

text \<open>
  C2 as stated fails in its second half: with an empty breaker rating the verdict is the dash
  (the marker of an unavailable value), not \<^verbatim>\<open>"N/A"\<close>.
\<close>

theorem protection_status_counterexample:
  "try_parse_float Empty = None \<and>
   protection_status Empty (Num (145 / 100)) (Some 10) (Some 5) 1 = Dash \<and>
   protection_status Empty (Num (145 / 100)) (Some 10) (Some 5) 1 \<noteq> N_A"
  by (simp add: protection_status_def try_parse_float_def)

text \<open>
  C2, amended: when the ampacity, the total design current, a positive breaker rating In and a
  positive multiplier k are all available, the protection verdict is \<^verbatim>\<open>"OK"\<close> if and only if
  Icalc \<le> In \<le> Iz_total and In * k \<le> 1.45 * Iz_total, and \<^verbatim>\<open>"NE"\<close> otherwise; when the breaker
  rating or the multiplier (hence the protection current) is empty, invalid or not positive, the
  verdict is the dash, neither pass nor fail; the verdict is \<^verbatim>\<open>"N/A"\<close> exactly when breaker
  rating and multiplier are available and the ampacity or the design current is not.
\<close>

theorem protection_status_rule:
  "(0 < i \<and> 0 < k \<longrightarrow>
      (protection_status (Num i) (Num k) (Some iz_one) (Some icalc_total) n_parallel = OK
         \<longleftrightarrow> (icalc_total \<le> i \<and> i \<le> iz_one * of_int n_parallel
              \<and> i * k \<le> 145 / 100 * (iz_one * of_int n_parallel))) \<and>
      (protection_status (Num i) (Num k) (Some iz_one) (Some icalc_total) n_parallel = NE
         \<longleftrightarrow> \<not> (icalc_total \<le> i \<and> i \<le> iz_one * of_int n_parallel
              \<and> i * k \<le> 145 / 100 * (iz_one * of_int n_parallel)))) \<and>
   (try_parse_float in_text = None \<or> try_parse_float k_text = None
       \<or> (\<exists>v. in_text = Num v \<and> v \<le> 0) \<or> (\<exists>v. k_text = Num v \<and> v \<le> 0)
      \<longrightarrow> protection_status in_text k_text iz icalc n_parallel = Dash) \<and>
   (protection_status in_text k_text iz icalc n_parallel = N_A
      \<longleftrightarrow> (\<exists>v w. in_text = Num v \<and> 0 < v \<and> k_text = Num w \<and> 0 < w)
            \<and> (iz = None \<or> icalc = None))"
proof (intro conjI impI)
  assume "0 < i \<and> 0 < k"
  then have eq: "protection_status (Num i) (Num k) (Some iz_one) (Some icalc_total) n_parallel =
     (if icalc_total \<le> i \<and> i \<le> iz_one * of_int n_parallel
              \<and> i * k \<le> 145 / 100 * (iz_one * of_int n_parallel) then OK else NE)"
    by (simp add: protection_status_def try_parse_float_def Let_def)
  show "protection_status (Num i) (Num k) (Some iz_one) (Some icalc_total) n_parallel = OK
         \<longleftrightarrow> (icalc_total \<le> i \<and> i \<le> iz_one * of_int n_parallel
              \<and> i * k \<le> 145 / 100 * (iz_one * of_int n_parallel))"
    unfolding eq by simp
  show "protection_status (Num i) (Num k) (Some iz_one) (Some icalc_total) n_parallel = NE
         \<longleftrightarrow> \<not> (icalc_total \<le> i \<and> i \<le> iz_one * of_int n_parallel
              \<and> i * k \<le> 145 / 100 * (iz_one * of_int n_parallel))"
    unfolding eq by simp
next
  assume "try_parse_float in_text = None \<or> try_parse_float k_text = None
       \<or> (\<exists>v. in_text = Num v \<and> v \<le> 0) \<or> (\<exists>v. k_text = Num v \<and> v \<le> 0)"
  then show "protection_status in_text k_text iz icalc n_parallel = Dash"
    unfolding protection_status_def try_parse_float_def Let_def
    by (cases in_text; cases k_text) (auto split: option.splits)
next
  show "protection_status in_text k_text iz icalc n_parallel = N_A
      \<longleftrightarrow> (\<exists>v w. in_text = Num v \<and> 0 < v \<and> k_text = Num w \<and> 0 < w)
            \<and> (iz = None \<or> icalc = None)"
    unfolding protection_status_def try_parse_float_def Let_def
    by (cases in_text; cases k_text; cases iz; cases icalc) simp_all
qed

theorem protection_status_rule_witness:
  "protection_status (Num 6) (Num (145 / 100)) (Some 10) (Some 5) 1 = OK \<and>
   protection_status (Num 16) (Num (145 / 100)) (Some 10) (Some 5) 1 = NE \<and>
   protection_status Invalid (Num (145 / 100)) (Some 10) (Some 5) 1 = Dash \<and>
   protection_status (Num 6) (Num (145 / 100)) None (Some 5) 1 = N_A"
  using protection_status_rule [of 6 "145 / 100" 10 5 1 Invalid "Num (145 / 100)" "Some 10" "Some 5"]
    protection_status_rule [of 16 "145 / 100" 10 5 1 "Num 6" "Num (145 / 100)" None "Some 5"]
  by (simp add: protection_status_def try_parse_float_def)

section \<open>Properties of the grouping factor\<close>

lemma lookup_group_factor_above_one:
  assumes e: "1 < c" and ne: "GROUPING_FACTORS T \<noteq> []"
  shows "\<exists>vm. dict_get (GROUPING_FACTORS T) (Max (set (dict_keys (GROUPING_FACTORS T)))) = Some vm \<and>
           lookup_group_factor T c =
             Inr (if c \<ge> Max (set (dict_keys (GROUPING_FACTORS T))) then vm
                  else case dict_get (GROUPING_FACTORS T) c of Some v \<Rightarrow> v | None \<Rightarrow> vm)"
proof -
  define gf where "gf = GROUPING_FACTORS T"
  define m where "m = Max (set (dict_keys gf))"
  have kne: "dict_keys gf \<noteq> []" using ne by (simp add: dict_keys_Nil gf_def)
  then have "m \<in> set (dict_keys gf)" unfolding m_def by (intro Max_in) simp_all
  from dict_index_key [OF this]
  obtain vm where vm: "dict_index gf m = Inr vm" "dict_get gf m = Some vm"
    by (elim exE conjE)
  have c: "\<not> c \<le> 1" using e by simp
  have "lookup_group_factor T c = Inr (if c \<ge> m then vm
                  else case dict_get gf c of Some v \<Rightarrow> v | None \<Rightarrow> vm)"
  proof (cases "c \<ge> m")
    case True
    then show ?thesis
      unfolding lookup_group_factor_def gf_def [symmetric] Let_def m_def [symmetric]
      using c kne vm(1) by simp
  next
    case False
    then show ?thesis
      unfolding lookup_group_factor_def gf_def [symmetric] Let_def m_def [symmetric]
      using c kne vm(1) by (cases "dict_get gf c") (simp_all add: bind_err_def)
  qed
  with vm(2) show ?thesis unfolding gf_def m_def by blast
qed

lemma demo_group_keys: "Max (set (dict_keys (GROUPING_FACTORS demo_tables))) = 5"
  by (simp add: demo_tables_def dict_keys_def)

text \<open>
  C5 as stated fails at an effective count of 1: the key 1 is defined in the table and is below
  the largest key, but the function returns 1.0 and not the value of the table.
\<close>

theorem group_factor_counterexample:
  "dict_get (GROUPING_FACTORS demo_tables) (effective_circuits 1 1) = Some (9 / 10) \<and>
   effective_circuits 1 1 < Max (set (dict_keys (GROUPING_FACTORS demo_tables))) \<and>
   group_factor demo_tables 1 1 = Inr 1 \<and>
   group_factor demo_tables 1 1 \<noteq> Inr (9 / 10)"
proof -
  have e: "effective_circuits 1 1 = 1" by (simp add: effective_circuits_def)
  have g: "dict_get (GROUPING_FACTORS demo_tables) 1 = Some (9 / 10)"
    by (simp add: demo_tables_def dict_get_def)
  have r: "group_factor demo_tables 1 1 = Inr 1"
    by (simp add: group_factor_def lookup_group_factor_def e)
  show ?thesis unfolding e demo_group_keys r using g by simp
qed

text \<open>
  C5, amended: for circuitCount \<ge> 1 and parallelCount \<ge> 1 the effective count is
  max(1, circuitCount + parallelCount - 1) when parallelCount > 1 and circuitCount otherwise,
  which is circuitCount + parallelCount - 1 in both cases. When the effective count is at most 1
  the grouping factor is 1.0, whatever the table holds. When it is above 1 and the table is not
  empty, the grouping factor is the value at the largest key if the effective count is at or
  above that key, the value at the exact key if that key is defined and below the largest key,
  and the value at the largest key if the exact key is not defined.
\<close>

theorem group_factor_rule:
  assumes "1 \<le> circuits_count" and "1 \<le> n_parallel"
  shows "effective_circuits circuits_count n_parallel =
           (if n_parallel > 1 then max 1 (circuits_count + n_parallel - 1) else circuits_count) \<and>
         effective_circuits circuits_count n_parallel = circuits_count + n_parallel - 1 \<and>
         (effective_circuits circuits_count n_parallel \<le> 1 \<longrightarrow>
            group_factor T circuits_count n_parallel = Inr 1) \<and>
         (1 < effective_circuits circuits_count n_parallel \<and> GROUPING_FACTORS T \<noteq> [] \<longrightarrow>
            (\<exists>vm. dict_get (GROUPING_FACTORS T) (Max (set (dict_keys (GROUPING_FACTORS T)))) = Some vm \<and>
               group_factor T circuits_count n_parallel =
                 Inr (if effective_circuits circuits_count n_parallel
                           \<ge> Max (set (dict_keys (GROUPING_FACTORS T))) then vm
                      else case dict_get (GROUPING_FACTORS T)
                                  (effective_circuits circuits_count n_parallel) of
                             Some v \<Rightarrow> v | None \<Rightarrow> vm)))"
proof (intro conjI impI)
  show "effective_circuits circuits_count n_parallel =
           (if n_parallel > 1 then max 1 (circuits_count + n_parallel - 1) else circuits_count)"
    by (simp add: effective_circuits_def)
  show "effective_circuits circuits_count n_parallel = circuits_count + n_parallel - 1"
    using assms by (simp add: effective_circuits_def)
  show "group_factor T circuits_count n_parallel = Inr 1"
    if "effective_circuits circuits_count n_parallel \<le> 1"
    using that by (simp add: group_factor_def lookup_group_factor_def)
  show "\<exists>vm. dict_get (GROUPING_FACTORS T) (Max (set (dict_keys (GROUPING_FACTORS T)))) = Some vm \<and>
               group_factor T circuits_count n_parallel =
                 Inr (if effective_circuits circuits_count n_parallel
                           \<ge> Max (set (dict_keys (GROUPING_FACTORS T))) then vm
                      else case dict_get (GROUPING_FACTORS T)
                                  (effective_circuits circuits_count n_parallel) of
                             Some v \<Rightarrow> v | None \<Rightarrow> vm)"
    if "1 < effective_circuits circuits_count n_parallel \<and> GROUPING_FACTORS T \<noteq> []"
    unfolding group_factor_def using lookup_group_factor_above_one that by simp
qed

theorem group_factor_rule_witness:
  "group_factor demo_tables 1 1 = Inr 1 \<and> group_factor demo_tables 2 1 = Inr (8 / 10) \<and>
   group_factor demo_tables 2 2 = Inr (6 / 10) \<and> group_factor demo_tables 3 4 = Inr (6 / 10)"
  using group_factor_rule [of 1 1 demo_tables] group_factor_rule [of 2 1 demo_tables]
    group_factor_rule [of 2 2 demo_tables] group_factor_rule [of 3 4 demo_tables]
  by (simp add: group_factor_def lookup_group_factor_def effective_circuits_def demo_tables_def
      dict_keys_def dict_get_def dict_index_def bind_err_def)

section \<open>Properties of the chain accumulator\<close>

lemma strip_letters [simp]:
  "strip ''K1'' = ''K1''" "strip ''A'' = ''A''" "strip ''B'' = ''B''" "strip ''C'' = ''C''"
  "strip ''D'' = ''D''" "strip ''X'' = ''X''"
  by (simp_all add: strip_def is_space_def)

lemma chain_no_predecessor:
  assumes "\<forall>r\<in>set rows. \<not> (strip (r_circuit r) = circuit \<and> strip (r_do r) = strip form_od)"
  shows "sum_drop_chain_ending_at rows form_do_text form_l_text form_area_text circuit form_od = 0"
proof -
  have "List.find (row_found circuit form_od fd fl fa (strip form_od)) rows = None" for fd fl fa
    using assms by (auto simp: find_None_iff row_found_def)
  then show ?thesis
    by (simp add: sum_drop_chain_ending_at_def)
qed

text \<open>
  C3: for three records of one circuit forming the chain A-B-C-D, each with a stored drop of 1.0,
  the chain accumulator queried from the endpoint D (a text that strips to the label D) returns
  3.0; and for any table and any endpoint that is the "to" endpoint of no record of the circuit,
  it returns 0. The labels are compared after \<^verbatim>\<open>strip()\<close>: the labels of the chain are taken
  stripped and distinct.
\<close>

theorem sum_drop_chain_scenario:
  "(strip k = k \<and> k \<noteq> [] \<and> strip a = a \<and> strip b = b \<and> strip c = c \<and> strip d = d \<and>
    b \<noteq> [] \<and> c \<noteq> [] \<and> d \<noteq> [] \<and> distinct [a, b, c, d] \<and> strip q = d \<longrightarrow>
      sum_drop_chain_ending_at
        [\<lparr> r_circuit = k, r_od = a, r_do = b, r_l = l1, r_presek = p1, r_drop = Some 1 \<rparr>,
         \<lparr> r_circuit = k, r_od = b, r_do = c, r_l = l2, r_presek = p2, r_drop = Some 1 \<rparr>,
         \<lparr> r_circuit = k, r_od = c, r_do = d, r_l = l3, r_presek = p3, r_drop = Some 1 \<rparr>]
        form_do_text form_l_text form_area_text k q = 3) \<and>
   ((\<forall>r\<in>set rows. \<not> (strip (r_circuit r) = circuit \<and> strip (r_do r) = strip form_od)) \<longrightarrow>
      sum_drop_chain_ending_at rows form_do_text form_l_text form_area_text circuit form_od = 0)"
proof (intro conjI impI)
  assume h: "strip k = k \<and> k \<noteq> [] \<and> strip a = a \<and> strip b = b \<and> strip c = c \<and> strip d = d \<and>
    b \<noteq> [] \<and> c \<noteq> [] \<and> d \<noteq> [] \<and> distinct [a, b, c, d] \<and> strip q = d"
  then have ne: "a \<noteq> b" "a \<noteq> c" "a \<noteq> d" "b \<noteq> c" "b \<noteq> d" "c \<noteq> d"
    "b \<noteq> a" "c \<noteq> a" "d \<noteq> a" "c \<noteq> b" "d \<noteq> b" "d \<noteq> c"
    by auto
  from h have st: "strip k = k" "strip a = a" "strip b = b" "strip c = c" "strip d = d"
    "strip q = d"
    and nn: "k \<noteq> []" "b \<noteq> []" "c \<noteq> []" "d \<noteq> []"
    by simp_all
  have q: "q \<noteq> []" "q \<noteq> a" "q \<noteq> b" "q \<noteq> c"
    using st ne nn by (auto simp: strip_def)
  show "sum_drop_chain_ending_at
        [\<lparr> r_circuit = k, r_od = a, r_do = b, r_l = l1, r_presek = p1, r_drop = Some 1 \<rparr>,
         \<lparr> r_circuit = k, r_od = b, r_do = c, r_l = l2, r_presek = p2, r_drop = Some 1 \<rparr>,
         \<lparr> r_circuit = k, r_od = c, r_do = d, r_l = l3, r_presek = p3, r_drop = Some 1 \<rparr>]
        form_do_text form_l_text form_area_text k q = 3"
    using ne nn q by (simp add: sum_drop_chain_ending_at_def row_found_def st)
next
  assume "\<forall>r\<in>set rows. \<not> (strip (r_circuit r) = circuit \<and> strip (r_do r) = strip form_od)"
  then show "sum_drop_chain_ending_at rows form_do_text form_l_text form_area_text circuit form_od = 0"
    by (rule chain_no_predecessor)
qed

theorem sum_drop_chain_scenario_witness:
  "sum_drop_chain_ending_at demo_rows ''E'' ''10'' ''2'' ''K1'' ''D'' = 3 \<and>
   sum_drop_chain_ending_at demo_rows ''E'' ''10'' ''2'' ''K1'' [CHR ''D'', CHR 0xA0] = 3 \<and>
   sum_drop_chain_ending_at demo_rows ''E'' ''10'' ''2'' ''K1'' ''X'' = 0"
proof -
  have s: "strip [CHR ''D'', CHR 0xA0] = ''D''"
    by (simp add: strip_def is_space_def)
  show ?thesis
    using sum_drop_chain_scenario [of "''K1''" "''A''" "''B''" "''C''" "''D''" "''D''" "''10,00''"
        "''2,00''" "''10,00''" "''2,00''" "''10,00''" "''2,00''" "''E''" "''10''" "''2''" demo_rows
        "''K1''" "''X''"]
      sum_drop_chain_scenario [of "''K1''" "''A''" "''B''" "''C''" "''D''" "[CHR ''D'', CHR 0xA0]"
        "''10,00''" "''2,00''" "''10,00''" "''2,00''" "''10,00''" "''2,00''" "''E''" "''10''" "''2''"
        demo_rows "''K1''" "''X''"]
    by (simp add: demo_rows_def s)
qed

section \<open>Sorted keys of a dictionary\<close>

lemma set_sorted_keys: "set (sorted_keys d) = fst ` set d"
  by (simp add: sorted_keys_def set_dict_keys)

lemma sorted_sorted_keys: "sorted (sorted_keys d)"
  by (simp add: sorted_keys_def)

lemma distinct_sorted_keys: "distinct (sorted_keys d)"
  by (simp add: sorted_keys_def dict_keys_def)

lemma sorted_keys_Nil: "sorted_keys d = [] \<longleftrightarrow> d = []"
proof -
  have "sorted_keys d = [] \<longleftrightarrow> set (sorted_keys d) = {}" by simp
  also have "\<dots> \<longleftrightarrow> d = []" unfolding set_sorted_keys by simp
  finally show ?thesis .
qed

lemma dict_index_sorted_key:
  "k \<in> set (sorted_keys d) \<Longrightarrow> \<exists>v. dict_index d k = Inr v \<and> dict_get d k = Some v"
  using dict_index_key [of k d] by (simp add: sorted_keys_def)

lemma dict_get_in_keys: "dict_get d k = Some v \<Longrightarrow> k \<in> set (sorted_keys d)"
  unfolding set_sorted_keys dict_get_def by (metis fst_conv image_eqI map_of_SomeD)

lemma dict_get_index: "dict_get d k = Some v \<Longrightarrow> dict_index d k = Inr v"
  by (simp add: dict_get_def dict_index_def)

lemma sorted_hd_Min: "sorted xs \<Longrightarrow> xs \<noteq> [] \<Longrightarrow> hd xs = Min (set xs)"
  by (cases xs) (auto intro!: Min_eqI [symmetric])

lemma sorted_last_Max: "sorted xs \<Longrightarrow> xs \<noteq> [] \<Longrightarrow> last xs = Max (set xs)"
proof (induction xs)
  case Nil
  then show ?case by simp
next
  case (Cons x xs)
  show ?case
  proof (cases "xs = []")
    case True
    then show ?thesis by simp
  next
    case False
    with Cons have l: "last xs = Max (set xs)" by simp
    have "x \<le> Max (set xs)" using Cons.prems False
      by (metis List.finite_set Max_ge last_in_set l list.set_intros(1) set_ConsD sorted_simps(2))
    then show ?thesis using False l by (simp add: max_def)
  qed
qed

section \<open>Properties of the temperature factor\<close>

lemma isclose_refl: "isclose a a r t"
  by (simp add: isclose_def)

lemma interpolate_temperature_in_range:
  assumes "of_int x \<le> t" and "t \<le> of_int (last (x # ys))" and "ys \<noteq> []"
    and "\<forall>k\<in>set (x # ys). \<exists>v. dict_index table k = Inr v"
  shows "\<exists>v. interpolate_temperature table t (zip (x # ys) ys) = Inr (Some v)"
  using assms
proof (induction ys arbitrary: x)
  case Nil
  then show ?case by simp
next
  case (Cons y zs)
  obtain vx where vx: "dict_index table x = Inr vx" using Cons.prems(4) by auto
  obtain vy where vy: "dict_index table y = Inr vy" using Cons.prems(4) by auto
  show ?case
  proof (cases "t \<le> of_int y")
    case True
    show ?thesis
    proof (cases "isclose (of_int y) (of_int x) (1 / 10 ^ 9) 0")
      case c: True
      then show ?thesis using True Cons.prems(1) vx vy by (simp add: bind_err_def)
    next
      case c: False
      then have "(of_int y :: real) \<noteq> of_int x" using isclose_refl by metis
      then have "(of_int y :: real) - of_int x \<noteq> 0" by simp
      then show ?thesis using True Cons.prems(1) vx vy c by (simp add: bind_err_def py_div_def)
    qed
  next
    case False
    then have yt: "of_int y \<le> t" by simp
    have zs: "zs \<noteq> []" using False Cons.prems(2) by (cases zs) auto
    have l: "t \<le> of_int (last (y # zs))" using Cons.prems(2) by simp
    have k: "\<forall>k\<in>set (y # zs). \<exists>v. dict_index table k = Inr v" using Cons.prems(4) by simp
    from Cons.IH [OF yt l zs k] show ?thesis using False by simp
  qed
qed

lemma lookup_temperature_factor_in_range:
  assumes sel: "dict_get (selected_kt_table T medium) insulation_key = Some table"
    and ne: "table \<noteq> []"
    and lo: "of_int (hd (sorted_keys table)) \<le> t" and hi: "t \<le> of_int (last (sorted_keys table))"
  shows "\<exists>v. lookup_temperature_factor T insulation_key medium t = Inr (Some v)"
proof -
  define points where "points = sorted_keys table"
  have pne: "points \<noteq> []" using ne by (simp add: points_def sorted_keys_Nil)
  have keys: "\<forall>k\<in>set points. \<exists>v. dict_index table k = Inr v"
    using dict_index_sorted_key unfolding points_def by blast
  have rng: "\<not> (t < of_int (hd points) \<or> t > of_int (last points))"
    using lo hi by (simp add: points_def)
  define hit where "hit = (case float_key t of None \<Rightarrow> None | Some k \<Rightarrow> dict_get table k)"
  have eq: "lookup_temperature_factor T insulation_key medium t =
      (case hit of Some v \<Rightarrow> Inr (Some v)
       | None \<Rightarrow> interpolate_temperature table t (zip points (tl points)))"
    unfolding lookup_temperature_factor_def sel hit_def
    using ne pne rng by (simp add: Let_def points_def [symmetric])
  show ?thesis
  proof (cases hit)
    case (Some v)
    then show ?thesis unfolding eq by simp
  next
    case None
    obtain x ys where p: "points = x # ys" using pne by (cases points) auto
    have "ys \<noteq> []"
    proof
      assume "ys = []"
      then have "t = of_int x" using lo hi p by (simp add: points_def)
      then have "float_key t = Some x" by (simp add: float_key_def)
      moreover have "x \<in> set (sorted_keys table)" using p by (simp add: points_def)
      then obtain v where "dict_get table x = Some v" using dict_index_sorted_key by blast
      ultimately show False using None by (simp add: hit_def)
    qed
    from interpolate_temperature_in_range [OF _ _ this, of x t table]
    show ?thesis unfolding eq None using lo hi keys p by (simp add: points_def)
  qed
qed

lemma lookup_temperature_factor_out_of_range:
  assumes sel: "dict_get (selected_kt_table T medium) insulation_key = Some table"
    and out: "t < of_int (hd (sorted_keys table)) \<or> of_int (last (sorted_keys table)) < t"
  shows "lookup_temperature_factor T insulation_key medium t = Inr None"
  unfolding lookup_temperature_factor_def sel using out by (simp add: Let_def)


text \<open>
  C4: for a non-empty temperature table selected by medium and insulation key, the temperature
  factor is unavailable exactly when the temperature is strictly below the smallest or strictly
  above the largest breakpoint, and at a breakpoint it is the tabulated value.
\<close>

theorem lookup_temperature_factor_range:
  assumes sel: "dict_get (selected_kt_table T medium) insulation_key = Some table"
    and ne: "table \<noteq> []"
  shows "(lookup_temperature_factor T insulation_key medium t = Inr None \<longleftrightarrow>
            t < of_int (Min (fst ` set table)) \<or> of_int (Max (fst ` set table)) < t) \<and>
         (\<forall>k v. dict_get table k = Some v \<longrightarrow>
            lookup_temperature_factor T insulation_key medium (of_int k) = Inr (Some v))"
proof -
  define points where "points = sorted_keys table"
  have pne: "points \<noteq> []" using ne by (simp add: points_def sorted_keys_Nil)
  have srt: "sorted points" by (simp add: points_def sorted_sorted_keys)
  have mn: "hd points = Min (fst ` set table)"
    using sorted_hd_Min [OF srt pne] by (simp add: points_def set_sorted_keys)
  have mx: "last points = Max (fst ` set table)"
    using sorted_last_Max [OF srt pne] by (simp add: points_def set_sorted_keys)
  have first: "lookup_temperature_factor T insulation_key medium t = Inr None \<longleftrightarrow>
            t < of_int (Min (fst ` set table)) \<or> of_int (Max (fst ` set table)) < t"
  proof
    assume n: "lookup_temperature_factor T insulation_key medium t = Inr None"
    show "t < of_int (Min (fst ` set table)) \<or> of_int (Max (fst ` set table)) < t"
    proof (rule ccontr)
      assume "\<not> (t < of_int (Min (fst ` set table)) \<or> of_int (Max (fst ` set table)) < t)"
      then have "of_int (hd (sorted_keys table)) \<le> t" "t \<le> of_int (last (sorted_keys table))"
        using mn mx by (simp_all add: points_def)
      from lookup_temperature_factor_in_range [OF sel ne this] n show False by simp
    qed
  next
    assume "t < of_int (Min (fst ` set table)) \<or> of_int (Max (fst ` set table)) < t"
    then have "t < of_int (hd (sorted_keys table)) \<or> of_int (last (sorted_keys table)) < t"
      using mn mx by (simp add: points_def)
    from lookup_temperature_factor_out_of_range [OF sel this]
    show "lookup_temperature_factor T insulation_key medium t = Inr None" .
  qed
  have second: "lookup_temperature_factor T insulation_key medium (of_int k) = Inr (Some v)"
    if g: "dict_get table k = Some v" for k v
  proof -
    have kin: "k \<in> set points" using dict_get_in_keys [OF g] by (simp add: points_def)
    have fin: "finite (set points)" by simp
    have "Min (set points) \<le> k" "k \<le> Max (set points)" using kin by simp_all
    then have r: "hd points \<le> k" "k \<le> last points"
      using sorted_hd_Min [OF srt pne] sorted_last_Max [OF srt pne] by simp_all
    have fk: "float_key (of_int k) = Some k" by (simp add: float_key_def)
    show ?thesis
      unfolding lookup_temperature_factor_def sel
      using ne pne r g by (simp add: Let_def points_def [symmetric] fk)
  qed
  from first second show ?thesis by blast
qed

lemma demo_kt_table:
  "dict_get (selected_kt_table demo_tables ''air'') ''PVC'' =
     Some [(10, 122 / 100), (30, 1), (50, 71 / 100)]"
  by (simp add: selected_kt_table_def demo_tables_def dict_get_def)

theorem lookup_temperature_factor_range_witness:
  "lookup_temperature_factor demo_tables ''PVC'' ''air'' 51 = Inr None \<and>
   lookup_temperature_factor demo_tables ''PVC'' ''air'' 20 \<noteq> Inr None \<and>
   lookup_temperature_factor demo_tables ''PVC'' ''air'' 30 = Inr (Some 1)"
proof -
  have ne: "[(10::int, 122 / 100 :: real), (30, 1), (50, 71 / 100)] \<noteq> []" by simp
  note w = lookup_temperature_factor_range [OF demo_kt_table ne]
  have a: "lookup_temperature_factor demo_tables ''PVC'' ''air'' 51 = Inr None"
    using w [of 51] by simp
  have b: "lookup_temperature_factor demo_tables ''PVC'' ''air'' 20 \<noteq> Inr None"
    using w [of 20] by simp
  have "dict_get [(10::int, 122 / 100 :: real), (30, 1), (50, 71 / 100)] 30 = Some 1"
    by (simp add: dict_get_def)
  with w [of 0] have c: "lookup_temperature_factor demo_tables ''PVC'' ''air'' (of_int 30) = Inr (Some 1)"
    by blast
  from a b c show ?thesis by simp
qed

section \<open>Properties of the ampacity interpolation\<close>

lemma isclose_tolerance_mono:
  assumes "isclose a b (1 / 10 ^ 9) 0"
  shows "isclose a b (1 / 10 ^ 6) (1 / 10 ^ 3)"
proof -
  define m where "m = max \<bar>a\<bar> \<bar>b\<bar>"
  have m: "0 \<le> m" by (simp add: m_def)
  have "1 / 10 ^ 9 * m \<le> 1 / 10 ^ 6 * m" using m by (intro mult_right_mono) simp_all
  then have mono: "max (1 / 10 ^ 9 * m) 0 \<le> max (1 / 10 ^ 6 * m) (1 / 10 ^ 3)" by simp
  from assms have "a = b \<or> \<bar>a - b\<bar> \<le> max (1 / 10 ^ 9 * m) 0"
    unfolding isclose_def m_def .
  then have "a = b \<or> \<bar>a - b\<bar> \<le> max (1 / 10 ^ 6 * m) (1 / 10 ^ 3)"
    using mono order_trans by blast
  then show ?thesis unfolding isclose_def m_def .
qed

lemma lerp_between:
  fixes v1 v2 r :: real
  assumes "0 \<le> r" and "r \<le> 1"
  shows "min v1 v2 \<le> v1 + r * (v2 - v1) \<and> v1 + r * (v2 - v1) \<le> max v1 v2"
proof -
  define x where "x = r * (v2 - v1)"
  show ?thesis
  proof (cases "v1 \<le> v2")
    case True
    then have d: "0 \<le> v2 - v1" by simp
    have "0 \<le> x" unfolding x_def using assms d by simp
    moreover have "x \<le> v2 - v1"
      unfolding x_def using mult_right_mono [of r 1 "v2 - v1"] assms d by simp
    ultimately show ?thesis unfolding x_def [symmetric] using True by simp
  next
    case False
    then have d: "v2 - v1 \<le> 0" by simp
    have "x \<le> 0" unfolding x_def using assms d by (simp add: mult_nonneg_nonpos)
    moreover have "v2 - v1 \<le> x"
      unfolding x_def using mult_right_mono_neg [of r 1 "v2 - v1"] assms d by simp
    ultimately show ?thesis unfolding x_def [symmetric] using False by simp
  qed
qed

lemma interpolate_area_bracket:
  assumes le: "a1 \<le> a" "a \<le> a2" and ne: "a1 \<noteq> a2"
    and v1: "dict_index bt a1 = Inr v1" and v2: "dict_index bt a2 = Inr v2"
  shows "\<exists>v. interpolate_area bt a ((a1, a2) # rest) = Inr (Some v) \<and> min v1 v2 \<le> v \<and> v \<le> max v1 v2"
proof (cases "isclose a a1 (1 / 10 ^ 6) (1 / 10 ^ 3)")
  case True
  then show ?thesis using v1 by (simp add: bind_err_def)
next
  case c1: False
  show ?thesis
  proof (cases "isclose a2 a1 (1 / 10 ^ 9) 0")
    case True
    then show ?thesis using c1 le v1 v2 by (simp add: bind_err_def)
  next
    case False
    have d: "0 < a2 - a1" using le ne by simp
    define r where "r = (a - a1) / (a2 - a1)"
    have r: "0 \<le> r" "r \<le> 1" using le d by (simp_all add: r_def)
    have "interpolate_area bt a ((a1, a2) # rest) = Inr (Some (v1 + r * (v2 - v1)))"
      using c1 False le v1 v2 d by (simp add: bind_err_def py_div_def r_def)
    then show ?thesis using lerp_between [OF r] by simp
  qed
qed

lemma interpolate_area_adjacent:
  assumes "sorted (pre @ a1 # a2 # post)" and "distinct (pre @ a1 # a2 # post)"
    and "a1 \<le> a" and "a \<le> a2"
    and "\<forall>l\<in>set pre. \<not> isclose a l (1 / 10 ^ 6) (1 / 10 ^ 3)"
    and "\<forall>k\<in>set pre. \<exists>v. dict_index bt k = Inr v"
    and "dict_index bt a1 = Inr v1" and "dict_index bt a2 = Inr v2"
  shows "\<exists>v. interpolate_area bt a (zip (pre @ a1 # a2 # post) (tl (pre @ a1 # a2 # post)))
               = Inr (Some v) \<and> min v1 v2 \<le> v \<and> v \<le> max v1 v2"
  using assms
proof (induction pre)
  case Nil
  then have "a1 \<noteq> a2" by simp
  from interpolate_area_bracket [OF Nil(3) Nil(4) this Nil(7) Nil(8)]
  show ?case by simp
next
  case (Cons p pre')
  obtain vp where vp: "dict_index bt p = Inr vp" using Cons.prems(6) by auto
  have np: "\<not> isclose a p (1 / 10 ^ 6) (1 / 10 ^ 3)" using Cons.prems(5) by simp
  define u where "u = hd (pre' @ a1 # a2 # post)"
  have z: "zip ((p # pre') @ a1 # a2 # post) (tl ((p # pre') @ a1 # a2 # post)) =
           (p, u) # zip (pre' @ a1 # a2 # post) (tl (pre' @ a1 # a2 # post))"
    unfolding u_def by (cases pre') simp_all
  have pa1: "p < a1" using Cons.prems(1,2) by (auto simp: sorted_append less_le)
  show ?case
  proof (cases "p \<le> a \<and> a \<le> u")
    case True
    have pre'_nil: "pre' = []"
    proof (rule ccontr)
      assume "pre' \<noteq> []"
      then obtain q qs where q: "pre' = q # qs" by (cases pre') auto
      then have "u = q" by (simp add: u_def)
      moreover have "q < a1" using Cons.prems(1,2) q by (auto simp: sorted_append less_le)
      ultimately show False using True Cons.prems(3) by simp
    qed
    then have ua: "u = a1" by (simp add: u_def)
    then have aa: "a = a1" using True Cons.prems(3) by simp
    have nc: "\<not> isclose a1 p (1 / 10 ^ 9) 0"
      using np isclose_tolerance_mono [of a1 p] aa by blast
    have d: "a1 - p \<noteq> 0" using pa1 by simp
    have "interpolate_area bt a ((p, u) # zip (pre' @ a1 # a2 # post) (tl (pre' @ a1 # a2 # post)))
            = Inr (Some v1)"
      using np nc vp Cons.prems(7) pa1 d unfolding ua aa
      by (simp add: bind_err_def py_div_def)
    then show ?thesis unfolding z by simp
  next
    case False
    have s: "sorted (pre' @ a1 # a2 # post)" and dd: "distinct (pre' @ a1 # a2 # post)"
      using Cons.prems(1,2) by simp_all
    have t: "\<forall>l\<in>set pre'. \<not> isclose a l (1 / 10 ^ 6) (1 / 10 ^ 3)"
      and k: "\<forall>k\<in>set pre'. \<exists>v. dict_index bt k = Inr v"
      using Cons.prems(5,6) by simp_all
    from Cons.IH [OF s dd Cons.prems(3) Cons.prems(4) t k Cons.prems(7) Cons.prems(8)]
    show ?thesis unfolding z using False np by auto
  qed
qed

text \<open>
  C6 as stated fails for a table with two areas closer than the tolerance of the exact-match
  test: for the areas 1, 1.0005 and 2 with base values 5, 10 and 20, the area 1.0008 lies between
  the adjacent areas 1.0005 and 2, but it is within 0.001 of the area 1 and the loop returns the
  value 5 of that area.
\<close>

theorem ampacity_base_value_counterexample:
  "sorted_keys [(1, 5), (10005 / 10000, 10), (2, 20 :: real)] = [1 :: real] @ (10005 / 10000) # 2 # [] \<and>
   (10005 / 10000 :: real) \<le> 10008 / 10000 \<and> (10008 / 10000 :: real) \<le> 2 \<and>
   ampacity_base_value [(1, 5), (10005 / 10000, 10), (2, 20)] (10008 / 10000) = Inr (Some 5) \<and>
   \<not> (min 10 20 \<le> (5 :: real))"
  by (simp add: ampacity_base_value_def sorted_keys_def dict_keys_def dict_index_def bind_err_def
      isclose_def)

text \<open>
  C6, amended: for every ampacity base table, every two adjacent areas a1 < a2 of its sorted
  areas and every queried area a with a1 \<le> a \<le> a2, provided that a is not within the exact-match
  tolerance (\<^verbatim>\<open>math.isclose\<close> with relative tolerance 1e-6 and absolute tolerance 1e-3) of a
  standard area below a1, the base ampacity is available and lies between the table values at
  a1 and at a2 inclusive.
\<close>

theorem ampacity_base_value_between:
  assumes adj: "sorted_keys base_table = pre @ a1 # a2 # post"
    and le: "a1 \<le> a" "a \<le> a2"
    and tol: "\<forall>l\<in>set pre. \<not> isclose a l (1 / 10 ^ 6) (1 / 10 ^ 3)"
    and v1: "dict_get base_table a1 = Some v1" and v2: "dict_get base_table a2 = Some v2"
  shows "a1 < a2 \<and>
         (\<exists>v. ampacity_base_value base_table a = Inr (Some v) \<and> min v1 v2 \<le> v \<and> v \<le> max v1 v2)"
proof -
  define ss where "ss = sorted_keys base_table"
  have ss: "ss = pre @ a1 # a2 # post" using adj by (simp add: ss_def)
  have srt: "sorted (pre @ a1 # a2 # post)" and dst: "distinct (pre @ a1 # a2 # post)"
    using sorted_sorted_keys [of base_table] distinct_sorted_keys [of base_table] adj by simp_all
  have lt: "a1 < a2" using srt dst by (auto simp: sorted_append less_le)
  have i1: "dict_index base_table a1 = Inr v1" and i2: "dict_index base_table a2 = Inr v2"
    using v1 v2 by (simp_all add: dict_get_index)
  have keys: "\<forall>k\<in>set pre. \<exists>v. dict_index base_table k = Inr v"
    using dict_index_sorted_key [of _ base_table] adj by auto
  have hd_le: "hd ss \<le> a1" using srt unfolding ss by (cases pre) (auto simp: sorted_append)
  have last_ge: "a2 \<le> last ss" using srt unfolding ss by (cases post rule: rev_cases) (auto simp: sorted_append)
  have ne: "ss \<noteq> []" unfolding ss by simp
  have "\<exists>v. ampacity_base_value base_table a = Inr (Some v) \<and> min v1 v2 \<le> v \<and> v \<le> max v1 v2"
  proof (cases "a \<le> hd ss")
    case True
    then have "hd ss = a1" using hd_le le by simp
    then show ?thesis
      unfolding ampacity_base_value_def ss_def [symmetric] Let_def
      using True ne i1 by (simp add: bind_err_def)
  next
    case h: False
    show ?thesis
    proof (cases "a \<ge> last ss")
      case True
      then have "last ss = a2" using last_ge le by simp
      then show ?thesis
        unfolding ampacity_base_value_def ss_def [symmetric] Let_def
        using True h ne i2 by (simp add: bind_err_def)
    next
      case False
      have "ampacity_base_value base_table a = interpolate_area base_table a (zip ss (tl ss))"
        unfolding ampacity_base_value_def ss_def [symmetric] Let_def
        using False h ne by simp
      then show ?thesis
        unfolding ss
        using interpolate_area_adjacent [OF srt dst le tol keys i1 i2] by simp
    qed
  qed
  with lt show ?thesis by simp
qed

theorem ampacity_base_value_between_witness:
  "\<exists>v. ampacity_base_value [(2, 10), (4, 20)] 3 = Inr (Some v) \<and> min 10 20 \<le> v \<and> v \<le> max 10 20"
proof -
  have k: "sorted_keys [(2 :: real, 10 :: real), (4, 20)] = [] @ 2 # 4 # []"
    by (simp add: sorted_keys_def dict_keys_def)
  have g: "dict_get [(2 :: real, 10 :: real), (4, 20)] 2 = Some 10"
    "dict_get [(2 :: real, 10 :: real), (4, 20)] 4 = Some 20"
    by (simp_all add: dict_get_def)
  from ampacity_base_value_between [OF k _ _ _ g, of 3] show ?thesis by simp
qed

section \<open>Evaluation of the sample data\<close>















section \<open>Lookups that never raise\<close>





section \<open>The refresh returns\<close>















section \<open>Totality of the lookups\<close>

text \<open>
  C9: the ampacity lookup, the temperature-factor lookup and the line impedance never raise, and
  neither does the voltage drop for a power factor \<open>\<ge> - 1\<close> (lemmas
  \<open>lookup_ampacity_never_raises\<close>, \<open>lookup_temperature_factor_never_raises\<close>,
  \<open>impedance_never_raises\<close> and \<open>drop_pct_never_raises\<close>): an absent key or an empty table
  gives \<open>None\<close> or a default.
  The grouping-factor lookup is not total. With an empty grouping table (the state of the
  class attribute when the table file is missing or its grouping table is malformed) and two
  circuits, \<^verbatim>\<open>max\<close> of the empty dictionary raises \<^verbatim>\<open>ValueError\<close>.
\<close>

theorem lookup_group_factor_empty_table_raises:
  "lookup_group_factor (demo_tables \<lparr> GROUPING_FACTORS := [] \<rparr>) 2 = Inl ValueError"
  by (simp add: lookup_group_factor_def dict_keys_def)

section \<open>First fit of the search\<close>





















section \<open>Properties of the optimal-parameter search\<close>




section \<open>Validation of the inputs of the search\<close>





















end
